theory Spec2Isabelle
  imports Main "HOL-Library.Word"
begin

unbundle bit_operations_syntax

section \<open>C strings and the libc functions the filter calls\<close>

text \<open>
  A C string is modelled as the list of its bytes before the terminating NUL, so
  \<open>strlen\<close> is the length of the list. A \<open>const char *\<close> that points into such a
  string denotes the suffix that starts there: \<open>address + n\<close> is \<open>ptr_add address n\<close>.
  \<open>strlen\<close> returns a \<open>size_t\<close>, modelled as \<open>nat\<close>.
\<close>

definition strlen :: "string \<Rightarrow> nat" where
  "strlen s = length s"

text \<open>
  The C type \<open>int\<close> has 32 bits. \<open>int inlen = strlen(address)\<close> converts a \<open>size_t\<close> to
  \<open>int\<close>: the value is reduced modulo \<open>2^32\<close> and read as two's complement, so a
  string of more than \<open>INT_MAX\<close> bytes gets a wrapped, possibly negative, length. Passing
  an \<open>int\<close> where a \<open>size_t\<close> (64 bits) is expected, as in \<open>strndup(from, len)\<close>,
  reduces it modulo \<open>2^64\<close>, so a negative length becomes a huge count. Every other
  \<open>int\<close> operation of the filter (\<open>++i\<close> below \<open>inlen\<close>, \<open>pos_open + 1\<close> and
  \<open>pos_close - pos_open - 1\<close> on positions below \<open>inlen\<close>) stays within \<open>0\<close> and
  \<open>INT_MAX\<close> and is written without a wrap.
\<close>

definition INT_MAX :: nat where
  "INT_MAX = 2147483647"

definition int_of_size_t :: "nat \<Rightarrow> int" where
  "int_of_size_t n = (let m = int n mod 2 ^ 32 in if m < 2 ^ 31 then m else m - 2 ^ 32)"

definition size_t_of_int :: "int \<Rightarrow> nat" where
  "size_t_of_int i = nat (i mod 2 ^ 64)"

definition ptr_add :: "string \<Rightarrow> int \<Rightarrow> string" where
  "ptr_add s n = drop (nat n) s"

text \<open>\<open>tolower\<close> in the C locale (the filter never calls \<open>setlocale\<close>): only the 26
  ASCII capitals change.\<close>

definition tolower :: "char \<Rightarrow> char" where
  "tolower c =
     (if 65 \<le> (of_char c :: nat) \<and> (of_char c :: nat) \<le> 90
      then char_of (of_char c + (32 :: nat)) else c)"

text \<open>\<open>strcasecmp\<close> and \<open>strncasecmp\<close> (POSIX): the sign of the first difference of the
  lower-cased bytes; the end of a string is its NUL, smaller than every byte of a string.\<close>

fun strcasecmp :: "string \<Rightarrow> string \<Rightarrow> int" where
  "strcasecmp [] [] = 0"
| "strcasecmp [] (b # bs) = -1"
| "strcasecmp (a # as) [] = 1"
| "strcasecmp (a # as) (b # bs) =
     (if tolower a = tolower b then strcasecmp as bs
      else if (of_char (tolower a) :: nat) < of_char (tolower b) then -1 else 1)"

fun strncasecmp :: "string \<Rightarrow> string \<Rightarrow> nat \<Rightarrow> int" where
  "strncasecmp s1 s2 0 = 0"
| "strncasecmp [] [] (Suc n) = 0"
| "strncasecmp [] (b # bs) (Suc n) = -1"
| "strncasecmp (a # as) [] (Suc n) = 1"
| "strncasecmp (a # as) (b # bs) (Suc n) =
     (if tolower a = tolower b then strncasecmp as bs n
      else if (of_char (tolower a) :: nat) < of_char (tolower b) then -1 else 1)"

text \<open>\<open>strndup s n\<close> copies at most \<open>n\<close> bytes of \<open>s\<close>; it returns \<open>NULL\<close> when the
  allocation fails, which the caller's environment decides (\<open>ok\<close>).\<close>

definition strndup :: "bool \<Rightarrow> string \<Rightarrow> nat \<Rightarrow> string option" where
  "strndup ok s n = (if ok then Some (take n s) else None)"

section \<open>The address extractor\<close>

text \<open>The \<open>for\<close> loop of \<open>parse_address\<close>: \<open>i\<close> runs from its start value up to
  \<open>inlen\<close>, and the two positions are overwritten at every bracket.\<close>

function parse_address_loop :: "string \<Rightarrow> int \<Rightarrow> int \<Rightarrow> int \<Rightarrow> int \<Rightarrow> int \<times> int" where
  "parse_address_loop address inlen i pos_open pos_close =
     (if i < inlen then
        (if address ! nat i = CHR ''<'' then parse_address_loop address inlen (i + 1) i pos_close
         else if address ! nat i = CHR ''>'' then parse_address_loop address inlen (i + 1) pos_open i
         else parse_address_loop address inlen (i + 1) pos_open pos_close)
      else (pos_open, pos_close))"
  by pat_completeness auto
termination
  by (relation "measure (\<lambda>(address, inlen, i, pos_open, pos_close). nat (inlen - i))") auto

declare parse_address_loop.simps [simp del]

text \<open>\<open>parse_address\<close> returns the pointer (the suffix it designates) and, through
  \<open>*len\<close>, the length of the token.\<close>

definition parse_address :: "string \<Rightarrow> string \<times> int" where
  "parse_address address =
     (let inlen = int_of_size_t (strlen address) in
      case parse_address_loop address inlen 0 (-1) (-1) of
        (pos_open, pos_close) \<Rightarrow>
          if pos_open \<noteq> -1 \<and> pos_close \<noteq> -1 \<and> pos_open < pos_close
          then (ptr_add address (pos_open + 1), pos_close - pos_open - 1)
          else (address, inlen))"

text \<open>The address token of the data model: the \<open>len\<close> bytes at the returned pointer
  (none when \<open>len\<close> is not positive).\<close>

definition address_token :: "string \<Rightarrow> string" where
  "address_token s = (case parse_address s of (from, len) \<Rightarrow> take (nat len) from)"

text \<open>The specification's words for the scan: the position of the last occurrence of a
  character, if it occurs at all.\<close>

definition last_pos :: "char \<Rightarrow> string \<Rightarrow> nat option" where
  "last_pos c s =
     (case filter (\<lambda>j. s ! j = c) [0..<length s] of
        [] \<Rightarrow> None
      | j # js \<Rightarrow> Some (last (j # js)))"

text \<open>The specification's equality of two address tokens (data model): the lengths
  match and the bytes match under ASCII case-insensitive comparison.\<close>

definition address_equal :: "string \<Rightarrow> string \<Rightarrow> bool" where
  "address_equal a b \<longleftrightarrow> length a = length b \<and> map tolower a = map tolower b"

text \<open>The specification's test of a header field name: it equals the literal
  \<open>from\<close> case-insensitively.\<close>

definition is_from_field :: "string \<Rightarrow> bool" where
  "is_from_field headerf \<longleftrightarrow> map tolower headerf = map tolower ''from''"

section \<open>The milter runtime as the filter sees it\<close>

text \<open>The verdicts of \<open>mfapi.h\<close>.\<close>

datatype sfsistat =
    SMFIS_CONTINUE | SMFIS_REJECT | SMFIS_DISCARD | SMFIS_ACCEPT
  | SMFIS_TEMPFAIL | SMFIS_NOREPLY | SMFIS_SKIP

text \<open>\<open>unsigned long\<close> on the LP64 targets of the filter, and the protocol-step bits of
  libmilter's \<open>mfdef.h\<close> that the filter names.\<close>

type_synonym ulong = "64 word"

definition SMFIP_NOCONNECT :: ulong where "SMFIP_NOCONNECT = 0x00000001"
definition SMFIP_NOHELO :: ulong where "SMFIP_NOHELO = 0x00000002"
definition SMFIP_NORCPT :: ulong where "SMFIP_NORCPT = 0x00000008"
definition SMFIP_NR_HDR :: ulong where "SMFIP_NR_HDR = 0x00000080"

text \<open>\<open>struct mlfiPriv\<close>, the session of one message. \<open>env_from\<close> is the heap copy that
  the session owns.\<close>

record mlfiPriv =
  is_auth :: int
  env_from :: string
  env_from_len :: int
  reject :: int

text \<open>
  \<open>SMFICTX\<close>, as far as the filter uses it: the private-data slot (\<open>None\<close> is the
  \<open>NULL\<close> pointer; the session it points to is reachable through this slot only, so the
  slot holds the record itself), the macros of the connection, and the reply that
  \<open>smfi_setreply\<close> has set, if any.
\<close>

record SMFICTX =
  ctx_priv :: "mlfiPriv option"
  ctx_symvals :: "string \<rightharpoonup> string"
  ctx_reply :: "(string \<times> string \<times> string) option"

definition smfi_getpriv :: "SMFICTX \<Rightarrow> mlfiPriv option" where
  "smfi_getpriv ctx = ctx_priv ctx"

definition smfi_setpriv :: "SMFICTX \<Rightarrow> mlfiPriv option \<Rightarrow> SMFICTX" where
  "smfi_setpriv ctx p = ctx\<lparr>ctx_priv := p\<rparr>"

definition smfi_getsymval :: "SMFICTX \<Rightarrow> string \<Rightarrow> string option" where
  "smfi_getsymval ctx name = ctx_symvals ctx name"

definition smfi_setreply :: "SMFICTX \<Rightarrow> string \<Rightarrow> string \<Rightarrow> string \<Rightarrow> SMFICTX" where
  "smfi_setreply ctx rcode xcode message = ctx\<lparr>ctx_reply := Some (rcode, xcode, message)\<rparr>"

text \<open>The file-level variable \<open>static unsigned long mta_caps = 0\<close>.\<close>

record globals =
  mta_caps :: ulong

definition globals_init :: globals where
  "globals_init = \<lparr>mta_caps = 0\<rparr>"

text \<open>Reading a field through a \<open>NULL\<close> session pointer is undefined behaviour (a
  segmentation fault of the filter process); the handlers that do it return this fault
  instead of a verdict.\<close>

datatype fault = NullDeref

section \<open>The handlers\<close>

text \<open>\<open>mlfi_cleanup\<close>: both \<open>free\<close> calls release memory that only the slot reached.\<close>

definition mlfi_cleanup :: "SMFICTX \<Rightarrow> SMFICTX" where
  "mlfi_cleanup ctx =
     (case smfi_getpriv ctx of
        None \<Rightarrow> ctx
      | Some priv \<Rightarrow> smfi_setpriv ctx None)"

text \<open>\<open>mlfi_envfrom\<close>. \<open>malloc_ok\<close> and \<open>strndup_ok\<close> say whether the two allocations
  succeed. The record is zeroed by \<open>memset\<close> and all four fields are assigned before
  \<open>smfi_setpriv\<close> makes it visible. When \<open>strndup\<close> fails the slot is not written
  (the record is then neither published nor freed).\<close>

definition mlfi_envfrom :: "bool \<Rightarrow> bool \<Rightarrow> SMFICTX \<Rightarrow> string \<Rightarrow> SMFICTX \<times> sfsistat" where
  "mlfi_envfrom malloc_ok strndup_ok ctx envfrom =
     (if \<not> malloc_ok then (ctx, SMFIS_TEMPFAIL)
      else case parse_address envfrom of
        (from, len) \<Rightarrow>
          (case strndup strndup_ok from (size_t_of_int len) of
             None \<Rightarrow> (ctx, SMFIS_TEMPFAIL)
           | Some fromcp \<Rightarrow>
               (smfi_setpriv ctx
                  (Some \<lparr>is_auth = (if smfi_getsymval ctx ''{auth_type}'' \<noteq> None then 1 else 0),
                         env_from = fromcp,
                         env_from_len = len,
                         reject = 0\<rparr>),
                SMFIS_CONTINUE)))"

text \<open>\<open>mlfi_header\<close>. The first statement after fetching \<open>priv\<close> reads \<open>priv->is_auth\<close>;
  \<open>priv->reject = 1\<close> writes the session that the slot points to.\<close>

definition mlfi_header ::
  "globals \<Rightarrow> SMFICTX \<Rightarrow> string \<Rightarrow> string \<Rightarrow> fault + SMFICTX \<times> sfsistat" where
  "mlfi_header g ctx headerf headerv =
     (case smfi_getpriv ctx of
        None \<Rightarrow> Inl NullDeref
      | Some priv \<Rightarrow>
          let priv' =
            (if is_auth priv \<noteq> 0 \<and> reject priv = 0 then
               (if strcasecmp headerf ''from'' = 0 then
                  (case parse_address headerv of
                     (from, len) \<Rightarrow>
                       if len \<noteq> env_from_len priv
                          \<or> strncasecmp from (env_from priv) (size_t_of_int len) \<noteq> 0
                       then priv\<lparr>reject := 1\<rparr> else priv)
                else priv)
             else priv)
          in Inr (ctx\<lparr>ctx_priv := Some priv'\<rparr>,
                  if mta_caps g AND SMFIP_NR_HDR \<noteq> 0 then SMFIS_NOREPLY else SMFIS_CONTINUE))"

text \<open>\<open>mlfi_eom\<close> reads \<open>priv->reject\<close> before it calls \<open>mlfi_cleanup\<close>.\<close>

definition mlfi_eom :: "SMFICTX \<Rightarrow> fault + SMFICTX \<times> sfsistat" where
  "mlfi_eom ctx =
     (case smfi_getpriv ctx of
        None \<Rightarrow> Inl NullDeref
      | Some priv \<Rightarrow>
          if reject priv \<noteq> 0 then
            Inr (mlfi_cleanup
                   (smfi_setreply ctx ''550'' ''5.7.1''
                      ''Rejected due to unmatching envelope and header sender.''),
                 SMFIS_REJECT)
          else Inr (mlfi_cleanup ctx, SMFIS_CONTINUE))"

definition mlfi_abort :: "SMFICTX \<Rightarrow> SMFICTX \<times> sfsistat" where
  "mlfi_abort ctx = (mlfi_cleanup ctx, SMFIS_CONTINUE)"

text \<open>\<open>mlfi_negotiate\<close> returns the new globals, the four masks written through
  \<open>pf0\<close> to \<open>pf3\<close>, and the verdict.\<close>

definition mlfi_negotiate ::
  "globals \<Rightarrow> SMFICTX \<Rightarrow> ulong \<Rightarrow> ulong \<Rightarrow> ulong \<Rightarrow> ulong
     \<Rightarrow> globals \<times> (ulong \<times> ulong \<times> ulong \<times> ulong) \<times> sfsistat" where
  "mlfi_negotiate g ctx f0 f1 f2 f3 =
     (let pf0 = 0;
          pf1 = SMFIP_NOCONNECT OR SMFIP_NOHELO OR SMFIP_NORCPT;
          g' = g\<lparr>mta_caps := f1\<rparr>;
          pf1' = (if mta_caps g' AND SMFIP_NR_HDR \<noteq> 0 then pf1 OR SMFIP_NR_HDR else pf1);
          pf2 = 0;
          pf3 = 0
      in (g', (pf0, pf1', pf2, pf3), SMFIS_CONTINUE))"

section \<open>One message, as the runtime delivers it\<close>

text \<open>The runtime calls the handlers of one message in a fixed order: the envelope
  sender, every header in turn, then the end of the message. A fault ends the run, and a
  verdict other than \<open>SMFIS_CONTINUE\<close> at the envelope sender ends the message there.\<close>

fun mlfi_headers :: "globals \<Rightarrow> SMFICTX \<Rightarrow> (string \<times> string) list \<Rightarrow> fault + SMFICTX" where
  "mlfi_headers g ctx [] = Inr ctx"
| "mlfi_headers g ctx ((headerf, headerv) # hs) =
     (case mlfi_header g ctx headerf headerv of
        Inl e \<Rightarrow> Inl e
      | Inr (ctx', v) \<Rightarrow> mlfi_headers g ctx' hs)"

definition process_message ::
  "globals \<Rightarrow> bool \<Rightarrow> bool \<Rightarrow> SMFICTX \<Rightarrow> string \<Rightarrow> (string \<times> string) list
     \<Rightarrow> fault + SMFICTX \<times> sfsistat" where
  "process_message g malloc_ok strndup_ok ctx envfrom hs =
     (case mlfi_envfrom malloc_ok strndup_ok ctx envfrom of
        (ctx1, v) \<Rightarrow>
          if v = SMFIS_CONTINUE then
            (case mlfi_headers g ctx1 hs of
               Inl e \<Rightarrow> Inl e
             | Inr ctx2 \<Rightarrow> mlfi_eom ctx2)
          else Inr (ctx1, v))"

text \<open>The invariant of a session that \<open>mlfi_envfrom\<close> installs: the stored length is the
  length of the stored address.\<close>

definition priv_ok :: "mlfiPriv \<Rightarrow> bool" where
  "priv_ok priv \<longleftrightarrow> env_from_len priv = int (length (env_from priv))"

section \<open>Properties of the address extractor\<close>

lemma parse_address_loop_scan:
  "i \<le> length s \<Longrightarrow>
   parse_address_loop s (int (length s)) (int i) po pc =
     ((case filter (\<lambda>j. s ! j = CHR ''<'') [i..<length s] of
         [] \<Rightarrow> po | j # js \<Rightarrow> int (last (j # js))),
      (case filter (\<lambda>j. s ! j = CHR ''>'') [i..<length s] of
         [] \<Rightarrow> pc | j # js \<Rightarrow> int (last (j # js))))"
proof (induction "length s - i" arbitrary: i po pc)
  case 0
  then have "i = length s" by simp
  then show ?case
    by (simp add: parse_address_loop.simps [of s "int (length s)" "int (length s)"])
next
  case (Suc n)
  then have lt: "i < length s" and n: "n = length s - Suc i" by simp_all
  have upt: "[i..<length s] = i # [Suc i..<length s]"
    using lt by (simp add: upt_conv_Cons)
  have le: "Suc i \<le> length s" using lt by simp
  have IH: "parse_address_loop s (int (length s)) (int i + 1) po' pc' =
     ((case filter (\<lambda>j. s ! j = CHR ''<'') [Suc i..<length s] of
         [] \<Rightarrow> po' | j # js \<Rightarrow> int (last (j # js))),
      (case filter (\<lambda>j. s ! j = CHR ''>'') [Suc i..<length s] of
         [] \<Rightarrow> pc' | j # js \<Rightarrow> int (last (j # js))))" for po' pc'
    using Suc.hyps(1) [OF n le, of po' pc'] by (simp add: add.commute)
  have unfold: "parse_address_loop s (int (length s)) (int i) po pc =
     (if s ! i = CHR ''<'' then parse_address_loop s (int (length s)) (int i + 1) (int i) pc
      else if s ! i = CHR ''>'' then parse_address_loop s (int (length s)) (int i + 1) po (int i)
      else parse_address_loop s (int (length s)) (int i + 1) po pc)"
    using lt by (subst parse_address_loop.simps) simp
  show ?case
    unfolding unfold IH upt
    by (simp split: list.splits)
qed

lemma sorted_le_last: "sorted xs \<Longrightarrow> (x::nat) \<in> set xs \<Longrightarrow> x \<le> last xs"
  by (induction xs) auto

lemma filter_upt_last:
  assumes "filter P [0..<n] = j # js"
  shows "last (j # js) < n \<and> P (last (j # js)) \<and> (\<forall>k. last (j # js) < k \<and> k < n \<longrightarrow> \<not> P k)"
proof -
  let ?xs = "filter P [0..<n]"
  have ne: "?xs \<noteq> []" using assms by simp
  have "last ?xs \<in> set ?xs" using ne by (rule last_in_set)
  then have a: "last ?xs < n" "P (last ?xs)" by auto
  have srt: "sorted ?xs" by (simp add: sorted_wrt_filter)
  have "\<not> P k" if "last ?xs < k" "k < n" for k
  proof
    assume "P k"
    then have "k \<in> set ?xs" using that by simp
    then have "k \<le> last ?xs" using srt by (rule sorted_le_last [rotated])
    then show False using that by simp
  qed
  then show ?thesis using a assms by auto
qed

lemma last_pos_None_iff: "last_pos c s = None \<longleftrightarrow> c \<notin> set s"
proof -
  have "filter (\<lambda>j. s ! j = c) [0..<length s] = [] \<longleftrightarrow> c \<notin> set s"
    by (auto simp: filter_empty_conv in_set_conv_nth)
  then show ?thesis
    by (auto simp: last_pos_def split: list.splits)
qed

lemma last_pos_Some_iff:
  "last_pos c s = Some i \<longleftrightarrow>
     i < length s \<and> s ! i = c \<and> (\<forall>k. i < k \<and> k < length s \<longrightarrow> s ! k \<noteq> c)"
proof
  assume "last_pos c s = Some i"
  then obtain j js where f: "filter (\<lambda>j. s ! j = c) [0..<length s] = j # js"
    and i: "i = last (j # js)"
    by (auto simp: last_pos_def split: list.splits)
  show "i < length s \<and> s ! i = c \<and> (\<forall>k. i < k \<and> k < length s \<longrightarrow> s ! k \<noteq> c)"
    using filter_upt_last [OF f] unfolding i by blast
next
  assume r: "i < length s \<and> s ! i = c \<and> (\<forall>k. i < k \<and> k < length s \<longrightarrow> s ! k \<noteq> c)"
  then have "i \<in> set (filter (\<lambda>j. s ! j = c) [0..<length s])" by simp
  then obtain j js where f: "filter (\<lambda>j. s ! j = c) [0..<length s] = j # js"
    by (cases "filter (\<lambda>j. s ! j = c) [0..<length s]") auto
  let ?l = "last (j # js)"
  have l: "?l < length s" "s ! ?l = c" "\<forall>k. ?l < k \<and> k < length s \<longrightarrow> s ! k \<noteq> c"
    using filter_upt_last [OF f] by blast+
  have "\<not> ?l < i" using l(3) r by blast
  moreover have "\<not> i < ?l" using l(1,2) r by blast
  ultimately have "?l = i" by simp
  then show "last_pos c s = Some i"
    by (simp add: last_pos_def f)
qed

lemma parse_address_loop_last_pos:
  "parse_address_loop s (int (length s)) 0 (-1) (-1) =
     ((case last_pos CHR ''<'' s of None \<Rightarrow> -1 | Some po \<Rightarrow> int po),
      (case last_pos CHR ''>'' s of None \<Rightarrow> -1 | Some pc \<Rightarrow> int pc))"
  using parse_address_loop_scan [of 0 s "-1" "-1"]
  by (simp add: last_pos_def split: list.splits)

lemma int_of_size_t_small: "n \<le> INT_MAX \<Longrightarrow> int_of_size_t n = int n"
  by (simp add: int_of_size_t_def INT_MAX_def Let_def)

lemma size_t_of_int_small: "0 \<le> i \<Longrightarrow> i \<le> int INT_MAX \<Longrightarrow> size_t_of_int i = nat i"
  by (simp add: size_t_of_int_def INT_MAX_def)

lemma parse_address_eq:
  "length s \<le> INT_MAX \<Longrightarrow>
   parse_address s =
     (case last_pos CHR ''<'' s of
        None \<Rightarrow> (s, int (length s))
      | Some po \<Rightarrow>
          (case last_pos CHR ''>'' s of
             None \<Rightarrow> (s, int (length s))
           | Some pc \<Rightarrow>
               if po < pc then (drop (po + 1) s, int pc - int po - 1)
               else (s, int (length s))))"
  by (simp add: parse_address_def int_of_size_t_small strlen_def parse_address_loop_last_pos
      Let_def ptr_add_def nat_add_distrib split: option.splits)

lemma address_token_eq:
  "length s \<le> INT_MAX \<Longrightarrow>
   address_token s =
     (case last_pos CHR ''<'' s of
        None \<Rightarrow> s
      | Some po \<Rightarrow>
          (case last_pos CHR ''>'' s of
             None \<Rightarrow> s
           | Some pc \<Rightarrow>
               if po < pc then take (pc - po - 1) (drop (po + 1) s) else s))"
  by (simp add: address_token_def parse_address_eq nat_diff_distrib' split: option.splits)

lemma parse_address_len:
  "length s \<le> INT_MAX \<Longrightarrow> parse_address s = (from, len) \<Longrightarrow>
   0 \<le> len \<and> nat len \<le> length from \<and> len \<le> int INT_MAX"
  by (auto simp: parse_address_eq last_pos_Some_iff split: option.splits if_splits)

lemma address_token_length:
  "length s \<le> INT_MAX \<Longrightarrow> parse_address s = (from, len) \<Longrightarrow>
   int (length (address_token s)) = len"
  using parse_address_len [of s "from" len] by (simp add: address_token_def)

text \<open>Beyond \<open>INT_MAX\<close> bytes the converted length wraps. At \<open>INT_MAX + 3\<close> bytes it is
  negative, the scan is skipped, and the whole input comes back with the negative length,
  brackets or not.\<close>

lemma parse_address_wraps:
  "parse_address (''<aaa>'' @ replicate 2147483645 CHR ''a'')
     = (''<aaa>'' @ replicate 2147483645 CHR ''a'', -2147483646)"
proof -
  let ?s = "''<aaa>'' @ replicate 2147483645 CHR ''a''"
  have l: "strlen ?s = 2147483650"
    unfolding strlen_def length_append length_replicate by simp
  have i: "int_of_size_t 2147483650 = -2147483646"
    by (simp add: int_of_size_t_def Let_def)
  have loop: "parse_address_loop ?s (-2147483646) 0 (-1) (-1) = (-1, -1)"
    by (subst parse_address_loop.simps) simp
  show ?thesis
    unfolding parse_address_def l i Let_def loop by simp
qed

lemma strcasecmp_zero_iff: "strcasecmp a b = 0 \<longleftrightarrow> map tolower a = map tolower b"
  by (induction a b rule: strcasecmp.induct) auto

lemma strncasecmp_zero_iff:
  "strncasecmp a b n = 0 \<longleftrightarrow> map tolower (take n a) = map tolower (take n b)"
  by (induction a b n rule: strncasecmp.induct) auto

section \<open>Properties of the header check\<close>

lemma header_check_iff:
  assumes ok: "priv_ok priv" and pa: "parse_address headerv = (from, len)"
    and bound: "length headerv \<le> INT_MAX"
  shows "(len \<noteq> env_from_len priv \<or> strncasecmp from (env_from priv) (size_t_of_int len) \<noteq> 0)
           \<longleftrightarrow> \<not> address_equal (address_token headerv) (env_from priv)"
proof -
  have len: "0 \<le> len" "nat len \<le> length from" "len \<le> int INT_MAX"
    using parse_address_len [OF bound pa] by simp_all
  have cast: "size_t_of_int len = nat len"
    using len by (simp add: size_t_of_int_small)
  have tok: "address_token headerv = take (nat len) from"
    by (simp add: address_token_def pa)
  have tlen: "length (address_token headerv) = nat len"
    using len by (simp add: tok)
  show ?thesis
  proof (cases "len = env_from_len priv")
    case True
    then have n: "nat len = length (env_from priv)"
      using ok by (simp add: priv_ok_def)
    have l: "length (address_token headerv) = length (env_from priv)"
      using tlen n by simp
    have t2: "take (nat len) (env_from priv) = env_from priv"
      using n by simp
    have z: "strncasecmp from (env_from priv) (size_t_of_int len) = 0
               \<longleftrightarrow> map tolower (address_token headerv) = map tolower (env_from priv)"
      by (simp only: cast strncasecmp_zero_iff tok t2)
    show ?thesis
      unfolding address_equal_def using True l z by blast
  next
    case False
    then have "length (address_token headerv) \<noteq> length (env_from priv)"
      using ok len tlen by (auto simp: priv_ok_def)
    then show ?thesis
      using False by (simp add: address_equal_def)
  qed
qed

lemma mlfi_header_session:
  assumes "ctx_priv ctx = Some priv" "priv_ok priv" "length headerv \<le> INT_MAX"
  shows "mlfi_header g ctx headerf headerv =
     Inr (if is_auth priv \<noteq> 0 \<and> reject priv = 0
             \<and> is_from_field headerf
             \<and> \<not> address_equal (address_token headerv) (env_from priv)
          then ctx\<lparr>ctx_priv := Some (priv\<lparr>reject := 1\<rparr>)\<rparr> else ctx,
          if mta_caps g AND SMFIP_NR_HDR \<noteq> 0 then SMFIS_NOREPLY else SMFIS_CONTINUE)"
proof -
  obtain "from" len where pa: "parse_address headerv = (from, len)"
    by (cases "parse_address headerv")
  note chk = header_check_iff [OF assms(2) pa assms(3)]
  show ?thesis
    using assms(1) chk
    by (simp add: mlfi_header_def smfi_getpriv_def pa strcasecmp_zero_iff is_from_field_def
        Let_def)
qed

text \<open>A From value of \<open>INT_MAX + 3\<close> bytes has a negative \<open>len\<close>, which differs from
  every stored length: the header is a mismatch whatever its brackets hold.\<close>

lemma mlfi_header_wraps:
  "mlfi_header g
     \<lparr>ctx_priv = Some \<lparr>is_auth = 1, env_from = ''aaa'', env_from_len = 3, reject = 0\<rparr>,
      ctx_symvals = Map.empty, ctx_reply = None\<rparr>
     ''From'' (''<aaa>'' @ replicate 2147483645 CHR ''a'')
   = Inr (\<lparr>ctx_priv = Some \<lparr>is_auth = 1, env_from = ''aaa'', env_from_len = 3, reject = 1\<rparr>,
           ctx_symvals = Map.empty, ctx_reply = None\<rparr>,
          if mta_caps g AND SMFIP_NR_HDR \<noteq> 0 then SMFIS_NOREPLY else SMFIS_CONTINUE)"
proof -
  have f: "strcasecmp ''From'' ''from'' = 0" by code_simp
  show ?thesis
    unfolding mlfi_header_def smfi_getpriv_def parse_address_wraps f
    by (simp add: Let_def)
qed

section \<open>What each handler computes\<close>

lemma mlfi_headers_session:
  assumes "ctx_priv ctx = Some priv" "priv_ok priv"
    and "\<forall>(headerf, headerv) \<in> set hs. length headerv \<le> INT_MAX"
  shows "mlfi_headers g ctx hs =
     Inr (if is_auth priv \<noteq> 0 \<and> reject priv = 0
             \<and> (\<exists>(headerf, headerv) \<in> set hs. is_from_field headerf
                    \<and> \<not> address_equal (address_token headerv) (env_from priv))
          then ctx\<lparr>ctx_priv := Some (priv\<lparr>reject := 1\<rparr>)\<rparr> else ctx)"
  using assms
proof (induction hs arbitrary: ctx priv)
  case Nil
  then show ?case by simp
next
  case (Cons h hs)
  obtain headerf headerv where h: "h = (headerf, headerv)" by (cases h)
  have b: "length headerv \<le> INT_MAX"
    and bs: "\<forall>(headerf, headerv) \<in> set hs. length headerv \<le> INT_MAX"
    using Cons.prems(3) by (simp_all add: h)
  note hdr = mlfi_header_session [OF Cons.prems(1,2) b]
  let ?bad = "is_auth priv \<noteq> 0 \<and> reject priv = 0 \<and> is_from_field headerf
      \<and> \<not> address_equal (address_token headerv) (env_from priv)"
  show ?case
  proof (cases ?bad)
    case True
    let ?p = "priv\<lparr>reject := 1\<rparr>"
    let ?c = "ctx\<lparr>ctx_priv := Some ?p\<rparr>"
    have 1: "ctx_priv ?c = Some ?p" by simp
    have 2: "priv_ok ?p" using Cons.prems(2) by (simp add: priv_ok_def)
    show ?thesis
      using True Cons.IH [OF 1 2 bs]
      by (simp add: h hdr)
  next
    case False
    show ?thesis
      using False Cons.IH [OF Cons.prems(1,2) bs]
      by (auto simp add: h hdr)
  qed
qed

lemma mlfi_envfrom_verdict:
  "snd (mlfi_envfrom malloc_ok strndup_ok ctx envfrom)
     = (if malloc_ok \<and> strndup_ok then SMFIS_CONTINUE else SMFIS_TEMPFAIL)"
  by (simp add: mlfi_envfrom_def strndup_def split_beta)

lemma mlfi_envfrom_eq:
  "length envfrom \<le> INT_MAX \<Longrightarrow>
   mlfi_envfrom malloc_ok strndup_ok ctx envfrom =
     (if malloc_ok \<and> strndup_ok
      then (ctx\<lparr>ctx_priv :=
                  Some \<lparr>is_auth = (if smfi_getsymval ctx ''{auth_type}'' \<noteq> None then 1 else 0),
                        env_from = address_token envfrom,
                        env_from_len = int (length (address_token envfrom)),
                        reject = 0\<rparr>\<rparr>,
            SMFIS_CONTINUE)
      else (ctx, SMFIS_TEMPFAIL))"
proof -
  assume bound: "length envfrom \<le> INT_MAX"
  obtain "from" len where pa: "parse_address envfrom = (from, len)"
    by (cases "parse_address envfrom")
  have len: "0 \<le> len" "len \<le> int INT_MAX"
    using parse_address_len [OF bound pa] by simp_all
  have cast: "size_t_of_int len = nat len"
    using len by (simp add: size_t_of_int_small)
  have "int (length (address_token envfrom)) = len"
    by (rule address_token_length [OF bound pa])
  then show ?thesis
    by (simp add: mlfi_envfrom_def pa cast strndup_def smfi_setpriv_def address_token_def)
qed

lemma mlfi_eom_session:
  "ctx_priv ctx = Some priv \<Longrightarrow>
   mlfi_eom ctx =
     (if reject priv \<noteq> 0
      then Inr (ctx\<lparr>ctx_priv := None,
                    ctx_reply := Some (''550'', ''5.7.1'',
                      ''Rejected due to unmatching envelope and header sender.'')\<rparr>,
                SMFIS_REJECT)
      else Inr (ctx\<lparr>ctx_priv := None\<rparr>, SMFIS_CONTINUE))"
  by (simp add: mlfi_eom_def mlfi_cleanup_def smfi_getpriv_def smfi_setpriv_def smfi_setreply_def)

lemma mlfi_cleanup_eq: "mlfi_cleanup ctx = ctx\<lparr>ctx_priv := None\<rparr>"
  by (cases "ctx_priv ctx") (simp_all add: mlfi_cleanup_def smfi_getpriv_def smfi_setpriv_def)

section \<open>The claims\<close>

text \<open>
  Claim C1. A message is delivered as one envelope-sender event, any finite list of
  header events and an end-of-message event, with both allocations of the envelope-sender
  handler succeeding and with the envelope value and every header value at most
  \<open>INT_MAX\<close> bytes long. The run returns a verdict, which is \<open>SMFIS_REJECT\<close> or
  \<open>SMFIS_CONTINUE\<close>, and it is \<open>SMFIS_REJECT\<close> if and only if the connection has an
  \<open>{auth_type}\<close> macro and some header whose field name is \<open>from\<close> in any case has an
  address token that differs from the envelope's token in length or, case-insensitively,
  in a byte. In particular a message without the macro is never rejected; and a header
  event on a session whose \<open>reject\<close> flag is set leaves the whole context as it is, so one
  mismatch among several From headers suffices.
\<close>

theorem process_message_reject_iff:
  assumes "length envfrom \<le> INT_MAX"
    and "\<forall>(headerf, headerv) \<in> set hs. length headerv \<le> INT_MAX"
  shows "(\<exists>ctx' v. process_message g True True ctx envfrom hs = Inr (ctx', v)
       \<and> (v = SMFIS_REJECT \<or> v = SMFIS_CONTINUE)
       \<and> (v = SMFIS_REJECT \<longleftrightarrow>
            smfi_getsymval ctx ''{auth_type}'' \<noteq> None
            \<and> (\<exists>(headerf, headerv) \<in> set hs. is_from_field headerf
                  \<and> \<not> address_equal (address_token headerv) (address_token envfrom))))
   \<and> (smfi_getsymval ctx ''{auth_type}'' = None \<longrightarrow>
        (\<exists>ctx'. process_message g True True ctx envfrom hs = Inr (ctx', SMFIS_CONTINUE)))
   \<and> (smfi_getpriv c = Some priv \<and> reject priv \<noteq> 0 \<longrightarrow>
        (\<exists>v. mlfi_header g c headerf headerv = Inr (c, v)))"
proof -
  let ?auth = "smfi_getsymval ctx ''{auth_type}'' \<noteq> None"
  let ?p = "\<lparr>is_auth = (if ?auth then 1 else 0), env_from = address_token envfrom,
             env_from_len = int (length (address_token envfrom)), reject = 0\<rparr>"
  let ?c1 = "ctx\<lparr>ctx_priv := Some ?p\<rparr>"
  let ?mis = "\<exists>(headerf, headerv) \<in> set hs. is_from_field headerf
                  \<and> \<not> address_equal (address_token headerv) (address_token envfrom)"
  have env: "mlfi_envfrom True True ctx envfrom = (?c1, SMFIS_CONTINUE)"
    by (simp add: mlfi_envfrom_eq [OF assms(1)])
  have 1: "ctx_priv ?c1 = Some ?p" by simp
  have 2: "priv_ok ?p" by (simp add: priv_ok_def)
  have hdrs: "mlfi_headers g ?c1 hs =
      Inr (if ?auth \<and> ?mis then ?c1\<lparr>ctx_priv := Some (?p\<lparr>reject := 1\<rparr>)\<rparr> else ?c1)"
    using mlfi_headers_session [OF 1 2 assms(2), of g] by simp
  have run: "\<exists>ctx'. process_message g True True ctx envfrom hs =
      Inr (ctx', if ?auth \<and> ?mis then SMFIS_REJECT else SMFIS_CONTINUE)"
  proof (cases "?auth \<and> ?mis")
    case True
    then have "mlfi_headers g ?c1 hs = Inr (?c1\<lparr>ctx_priv := Some (?p\<lparr>reject := 1\<rparr>)\<rparr>)"
      using hdrs by simp
    then show ?thesis
      using True by (simp add: process_message_def env mlfi_eom_session [of _ "?p\<lparr>reject := 1\<rparr>"])
  next
    case False
    then have "mlfi_headers g ?c1 hs = Inr ?c1"
      using hdrs by simp
    then show ?thesis
      using False by (simp add: process_message_def env mlfi_eom_session [of _ ?p])
  qed
  have sticky: "\<exists>v. mlfi_header g c headerf headerv = Inr (c, v)"
    if "smfi_getpriv c = Some priv \<and> reject priv \<noteq> 0"
    using that by (simp add: mlfi_header_def smfi_getpriv_def)
  from run obtain ctx' where r: "process_message g True True ctx envfrom hs =
      Inr (ctx', if ?auth \<and> ?mis then SMFIS_REJECT else SMFIS_CONTINUE)" ..
  have first: "\<exists>ctx' v. process_message g True True ctx envfrom hs = Inr (ctx', v)
       \<and> (v = SMFIS_REJECT \<or> v = SMFIS_CONTINUE)
       \<and> (v = SMFIS_REJECT \<longleftrightarrow> ?auth \<and> ?mis)"
    using r by (intro exI [of _ ctx'] exI [of _ "if ?auth \<and> ?mis then SMFIS_REJECT else SMFIS_CONTINUE"]) simp
  have second: "\<exists>ctx'. process_message g True True ctx envfrom hs = Inr (ctx', SMFIS_CONTINUE)"
    if "smfi_getsymval ctx ''{auth_type}'' = None"
    using r that by auto
  show ?thesis
    using first second sticky by blast
qed

text \<open>The three parts of C1 at concrete messages.\<close>

theorem process_message_reject_iff_witness:
  "(\<exists>ctx'. process_message globals_init True True
       \<lparr>ctx_priv = None, ctx_symvals = [''{auth_type}'' \<mapsto> ''PLAIN''], ctx_reply = None\<rparr>
       ''<alice@example.com>''
       [(''From'', ''Alice <alice@example.com>''), (''FROM'', ''bob@example.com'')]
     = Inr (ctx', SMFIS_REJECT))
   \<and> (\<exists>ctx'. process_message globals_init True True
       \<lparr>ctx_priv = None, ctx_symvals = Map.empty, ctx_reply = None\<rparr>
       ''<alice@example.com>''
       [(''From'', ''bob@example.com'')]
     = Inr (ctx', SMFIS_CONTINUE))
   \<and> (\<exists>v. mlfi_header globals_init
        \<lparr>ctx_priv = Some \<lparr>is_auth = 1, env_from = ''a@b'', env_from_len = 3, reject = 1\<rparr>,
         ctx_symvals = Map.empty, ctx_reply = None\<rparr> ''From'' ''a@b''
      = Inr (\<lparr>ctx_priv = Some \<lparr>is_auth = 1, env_from = ''a@b'', env_from_len = 3, reject = 1\<rparr>,
         ctx_symvals = Map.empty, ctx_reply = None\<rparr>, v))"
proof -
  have a: "address_token ''<alice@example.com>'' = ''alice@example.com''" by code_simp
  have b: "address_token ''bob@example.com'' = ''bob@example.com''" by code_simp
  have c: "\<not> address_equal ''bob@example.com'' ''alice@example.com''" by code_simp
  have d: "is_from_field ''FROM''" by code_simp
  have e: "length ''<alice@example.com>'' \<le> INT_MAX"
    by (simp add: INT_MAX_def)
  have h1: "\<forall>(headerf, headerv)
              \<in> set [(''From'', ''Alice <alice@example.com>''), (''FROM'', ''bob@example.com'')].
            length headerv \<le> INT_MAX"
    by (simp add: INT_MAX_def)
  have h2: "\<forall>(headerf, headerv) \<in> set [(''From'', ''bob@example.com'')].
            length headerv \<le> INT_MAX"
    by (simp add: INT_MAX_def)
  note t1 = process_message_reject_iff [OF e h1, where g = globals_init
       and ctx = "\<lparr>ctx_priv = None, ctx_symvals = [''{auth_type}'' \<mapsto> ''PLAIN''],
                  ctx_reply = None\<rparr>"]
  note t2 = process_message_reject_iff [OF e h2, where g = globals_init
       and ctx = "\<lparr>ctx_priv = None, ctx_symvals = Map.empty, ctx_reply = None\<rparr>"
       and c = "\<lparr>ctx_priv = Some \<lparr>is_auth = 1, env_from = ''a@b'', env_from_len = 3,
                                    reject = 1\<rparr>,
                ctx_symvals = Map.empty, ctx_reply = None\<rparr>"
       and priv = "\<lparr>is_auth = 1, env_from = ''a@b'', env_from_len = 3, reject = 1\<rparr>"
       and headerf = "''From''" and headerv = "''a@b''"]
  have 1: "\<exists>ctx'. process_message globals_init True True
       \<lparr>ctx_priv = None, ctx_symvals = [''{auth_type}'' \<mapsto> ''PLAIN''], ctx_reply = None\<rparr>
       ''<alice@example.com>''
       [(''From'', ''Alice <alice@example.com>''), (''FROM'', ''bob@example.com'')]
     = Inr (ctx', SMFIS_REJECT)"
    using t1 [THEN conjunct1] by (auto simp add: a b c d smfi_getsymval_def)
  have 2: "\<exists>ctx'. process_message globals_init True True
       \<lparr>ctx_priv = None, ctx_symvals = Map.empty, ctx_reply = None\<rparr>
       ''<alice@example.com>''
       [(''From'', ''bob@example.com'')]
     = Inr (ctx', SMFIS_CONTINUE)"
    using t2 [THEN conjunct2, THEN conjunct1] by (simp add: smfi_getsymval_def)
  have 3: "\<exists>v. mlfi_header globals_init
        \<lparr>ctx_priv = Some \<lparr>is_auth = 1, env_from = ''a@b'', env_from_len = 3, reject = 1\<rparr>,
         ctx_symvals = Map.empty, ctx_reply = None\<rparr> ''From'' ''a@b''
      = Inr (\<lparr>ctx_priv = Some \<lparr>is_auth = 1, env_from = ''a@b'', env_from_len = 3, reject = 1\<rparr>,
         ctx_symvals = Map.empty, ctx_reply = None\<rparr>, v)"
    using t2 [THEN conjunct2, THEN conjunct2] by (simp add: smfi_getpriv_def)
  show ?thesis using 1 2 3 by blast
qed

text \<open>
  Claim C2. For every input of at most \<open>INT_MAX\<close> bytes (the lengths that the
  \<open>int\<close> of the scan holds), \<open>parse_address\<close> finds the position of the last \<open><\<close> and
  of the last \<open>>\<close> (\<open>last_pos\<close>, which is the greatest index holding the character, or
  nothing when the character does not occur). If both occur and the former is less than
  the latter, the result points just past the \<open><\<close> and its length is close - open - 1,
  so the token is the text strictly between them; otherwise the result is the whole input
  with its full length. The function is total, the token has exactly the returned length,
  and the empty input gives the empty token.
\<close>

theorem parse_address_last_brackets:
  assumes "length s \<le> INT_MAX"
  shows "(last_pos c s = Some i \<longleftrightarrow>
      i < length s \<and> s ! i = c \<and> (\<forall>k. i < k \<and> k < length s \<longrightarrow> s ! k \<noteq> c))
   \<and> (last_pos c s = None \<longleftrightarrow> c \<notin> set s)
   \<and> parse_address s =
       (case (last_pos CHR ''<'' s, last_pos CHR ''>'' s) of
          (Some po, Some pc) \<Rightarrow>
            if po < pc then (ptr_add s (int po + 1), int pc - int po - 1)
            else (s, int (strlen s))
        | _ \<Rightarrow> (s, int (strlen s)))
   \<and> address_token s =
       (case (last_pos CHR ''<'' s, last_pos CHR ''>'' s) of
          (Some po, Some pc) \<Rightarrow>
            if po < pc then take (pc - po - 1) (drop (po + 1) s) else s
        | _ \<Rightarrow> s)
   \<and> int (length (address_token s)) = snd (parse_address s)
   \<and> parse_address [] = ([], 0)
   \<and> address_token [] = []"
proof -
  have pa: "parse_address s =
       (case (last_pos CHR ''<'' s, last_pos CHR ''>'' s) of
          (Some po, Some pc) \<Rightarrow>
            if po < pc then (ptr_add s (int po + 1), int pc - int po - 1)
            else (s, int (strlen s))
        | _ \<Rightarrow> (s, int (strlen s)))"
    by (simp add: parse_address_eq [OF assms] ptr_add_def strlen_def nat_add_distrib
        split: option.splits)
  have tok: "address_token s =
       (case (last_pos CHR ''<'' s, last_pos CHR ''>'' s) of
          (Some po, Some pc) \<Rightarrow>
            if po < pc then take (pc - po - 1) (drop (po + 1) s) else s
        | _ \<Rightarrow> s)"
    by (simp add: address_token_eq [OF assms] split: option.splits)
  have len: "int (length (address_token s)) = snd (parse_address s)"
    using address_token_length [OF assms, of "fst (parse_address s)" "snd (parse_address s)"]
    by simp
  have e0: "length ([] :: string) \<le> INT_MAX"
    by simp
  have e1: "parse_address [] = ([], 0)"
    by (simp add: parse_address_eq [OF e0] last_pos_def)
  have e2: "address_token [] = []"
    by (simp add: address_token_eq [OF e0] last_pos_def)
  show ?thesis
    using last_pos_Some_iff [of c s i] last_pos_None_iff [of c s] pa tok len e1 e2
    by (intro conjI)
qed

text \<open>C2 on an input with two bracket pairs and trailing text.\<close>

theorem parse_address_last_brackets_witness:
  "last_pos CHR ''<'' ''<x> Max <m@e.org> (y)'' = Some 8
   \<and> last_pos CHR ''>'' ''<x> Max <m@e.org> (y)'' = Some 16
   \<and> parse_address ''<x> Max <m@e.org> (y)'' = (''m@e.org> (y)'', 7)
   \<and> address_token ''<x> Max <m@e.org> (y)'' = ''m@e.org''"
proof -
  have 1: "last_pos CHR ''<'' ''<x> Max <m@e.org> (y)'' = Some 8" by code_simp
  have 2: "last_pos CHR ''>'' ''<x> Max <m@e.org> (y)'' = Some 16" by code_simp
  have 3: "ptr_add ''<x> Max <m@e.org> (y)'' 9 = ''m@e.org> (y)''" by code_simp
  have 4: "take (16 - 8 - 1) (drop (8 + 1) ''<x> Max <m@e.org> (y)'') = ''m@e.org''" by code_simp
  have b: "length ''<x> Max <m@e.org> (y)'' \<le> INT_MAX"
    by (simp add: INT_MAX_def)
  show ?thesis
    using parse_address_last_brackets [OF b, of "CHR ''<''" 8]
    by (simp add: 1 2 3 4)
qed

text \<open>
  Claim C3. On a session that is authenticated and not yet rejected (and whose stored
  length is the length of its stored address, as \<open>mlfi_envfrom\<close> leaves it), a header
  event with a value of at most \<open>INT_MAX\<close> bytes sets \<open>reject\<close> exactly when the field name is \<open>from\<close> in any case and the token
  of the header value differs from the stored envelope address in length or,
  case-insensitively, in a byte. On equality, and for every other field name, the context
  is returned unchanged.
\<close>

theorem mlfi_header_from_check:
  assumes "smfi_getpriv ctx = Some priv" and "priv_ok priv"
    and "is_auth priv \<noteq> 0" and "reject priv = 0"
    and "length headerv \<le> INT_MAX"
  shows "mlfi_header g ctx headerf headerv =
     Inr (if is_from_field headerf
             \<and> (length (address_token headerv) \<noteq> length (env_from priv)
                \<or> map tolower (address_token headerv) \<noteq> map tolower (env_from priv))
          then ctx\<lparr>ctx_priv := Some (priv\<lparr>reject := 1\<rparr>)\<rparr> else ctx,
          if mta_caps g AND SMFIP_NR_HDR \<noteq> 0 then SMFIS_NOREPLY else SMFIS_CONTINUE)"
proof -
  have "ctx_priv ctx = Some priv"
    using assms(1) by (simp add: smfi_getpriv_def)
  then show ?thesis
    using assms(3,4) by (simp add: mlfi_header_session [OF _ assms(2,5)] address_equal_def)
qed

text \<open>C3 at a mismatch in length, at a match up to case, and at another field.\<close>

theorem mlfi_header_from_check_witness:
  "mlfi_header globals_init
     \<lparr>ctx_priv = Some \<lparr>is_auth = 1, env_from = ''a@b.com'', env_from_len = 7, reject = 0\<rparr>,
      ctx_symvals = Map.empty, ctx_reply = None\<rparr> ''From'' ''A <a@b.co>''
   = Inr (\<lparr>ctx_priv = Some \<lparr>is_auth = 1, env_from = ''a@b.com'', env_from_len = 7, reject = 1\<rparr>,
           ctx_symvals = Map.empty, ctx_reply = None\<rparr>, SMFIS_CONTINUE)
   \<and> mlfi_header globals_init
     \<lparr>ctx_priv = Some \<lparr>is_auth = 1, env_from = ''User@Example.com'', env_from_len = 16, reject = 0\<rparr>,
      ctx_symvals = Map.empty, ctx_reply = None\<rparr> ''FROM'' ''<user@example.com>''
   = Inr (\<lparr>ctx_priv = Some \<lparr>is_auth = 1, env_from = ''User@Example.com'', env_from_len = 16, reject = 0\<rparr>,
           ctx_symvals = Map.empty, ctx_reply = None\<rparr>, SMFIS_CONTINUE)
   \<and> mlfi_header globals_init
     \<lparr>ctx_priv = Some \<lparr>is_auth = 1, env_from = ''a@b.com'', env_from_len = 7, reject = 0\<rparr>,
      ctx_symvals = Map.empty, ctx_reply = None\<rparr> ''Sender'' ''x@y.org''
   = Inr (\<lparr>ctx_priv = Some \<lparr>is_auth = 1, env_from = ''a@b.com'', env_from_len = 7, reject = 0\<rparr>,
           ctx_symvals = Map.empty, ctx_reply = None\<rparr>, SMFIS_CONTINUE)"
proof -
  have f1: "is_from_field ''From''" and f2: "is_from_field ''FROM''"
    and f3: "\<not> is_from_field ''Sender''" by code_simp+
  have t1: "address_token ''A <a@b.co>'' = ''a@b.co''"
    by code_simp
  have l2: "length (address_token ''<user@example.com>'') = length ''User@Example.com''"
    by code_simp
  have m2: "map tolower (address_token ''<user@example.com>'') = map tolower ''User@Example.com''"
    by code_simp
  have c: "mta_caps globals_init AND SMFIP_NR_HDR = 0"
    by (simp add: globals_init_def)
  have 1: "mlfi_header globals_init
     \<lparr>ctx_priv = Some \<lparr>is_auth = 1, env_from = ''a@b.com'', env_from_len = 7, reject = 0\<rparr>,
      ctx_symvals = Map.empty, ctx_reply = None\<rparr> ''From'' ''A <a@b.co>''
   = Inr (\<lparr>ctx_priv = Some \<lparr>is_auth = 1, env_from = ''a@b.com'', env_from_len = 7, reject = 1\<rparr>,
           ctx_symvals = Map.empty, ctx_reply = None\<rparr>, SMFIS_CONTINUE)"
    by (subst mlfi_header_from_check
          [where priv = "\<lparr>is_auth = 1, env_from = ''a@b.com'', env_from_len = 7, reject = 0\<rparr>"])
       (simp_all add: smfi_getpriv_def priv_ok_def INT_MAX_def f1 t1 c)
  have 2: "mlfi_header globals_init
     \<lparr>ctx_priv = Some \<lparr>is_auth = 1, env_from = ''User@Example.com'', env_from_len = 16, reject = 0\<rparr>,
      ctx_symvals = Map.empty, ctx_reply = None\<rparr> ''FROM'' ''<user@example.com>''
   = Inr (\<lparr>ctx_priv = Some \<lparr>is_auth = 1, env_from = ''User@Example.com'', env_from_len = 16, reject = 0\<rparr>,
           ctx_symvals = Map.empty, ctx_reply = None\<rparr>, SMFIS_CONTINUE)"
    by (subst mlfi_header_from_check
          [where priv = "\<lparr>is_auth = 1, env_from = ''User@Example.com'', env_from_len = 16, reject = 0\<rparr>"])
       (simp_all add: smfi_getpriv_def priv_ok_def INT_MAX_def f2 l2 m2 c)
  have 3: "mlfi_header globals_init
     \<lparr>ctx_priv = Some \<lparr>is_auth = 1, env_from = ''a@b.com'', env_from_len = 7, reject = 0\<rparr>,
      ctx_symvals = Map.empty, ctx_reply = None\<rparr> ''Sender'' ''x@y.org''
   = Inr (\<lparr>ctx_priv = Some \<lparr>is_auth = 1, env_from = ''a@b.com'', env_from_len = 7, reject = 0\<rparr>,
           ctx_symvals = Map.empty, ctx_reply = None\<rparr>, SMFIS_CONTINUE)"
    by (subst mlfi_header_from_check
          [where priv = "\<lparr>is_auth = 1, env_from = ''a@b.com'', env_from_len = 7, reject = 0\<rparr>"])
       (simp_all add: smfi_getpriv_def priv_ok_def INT_MAX_def f3 c)
  show ?thesis using 1 2 3 by (intro conjI)
qed

text \<open>
  Claim C4. With a session in the slot, the end-of-message handler either (flag set)
  sets the reply to 550, 5.7.1 and the fixed text, empties the slot and returns
  \<open>SMFIS_REJECT\<close>, or (flag clear) empties the slot, leaves the reply alone and returns
  \<open>SMFIS_CONTINUE\<close>.
\<close>

theorem mlfi_eom_verdict:
  assumes "smfi_getpriv ctx = Some priv"
  shows "mlfi_eom ctx =
     (if reject priv \<noteq> 0
      then Inr (ctx\<lparr>ctx_priv := None,
                    ctx_reply := Some (''550'', ''5.7.1'',
                      ''Rejected due to unmatching envelope and header sender.'')\<rparr>,
                SMFIS_REJECT)
      else Inr (ctx\<lparr>ctx_priv := None\<rparr>, SMFIS_CONTINUE))"
  using assms by (simp add: smfi_getpriv_def mlfi_eom_session)

text \<open>C4 at a rejected and at an accepted session.\<close>

theorem mlfi_eom_verdict_witness:
  "mlfi_eom \<lparr>ctx_priv = Some \<lparr>is_auth = 1, env_from = ''alice@example.com'',
                                env_from_len = 17, reject = 1\<rparr>,
             ctx_symvals = Map.empty, ctx_reply = None\<rparr>
   = Inr (\<lparr>ctx_priv = None, ctx_symvals = Map.empty,
           ctx_reply = Some (''550'', ''5.7.1'',
             ''Rejected due to unmatching envelope and header sender.'')\<rparr>, SMFIS_REJECT)
   \<and> mlfi_eom \<lparr>ctx_priv = Some \<lparr>is_auth = 1, env_from = ''alice@example.com'',
                                env_from_len = 17, reject = 0\<rparr>,
             ctx_symvals = Map.empty, ctx_reply = None\<rparr>
   = Inr (\<lparr>ctx_priv = None, ctx_symvals = Map.empty, ctx_reply = None\<rparr>, SMFIS_CONTINUE)"
  using mlfi_eom_verdict [of "\<lparr>ctx_priv = Some \<lparr>is_auth = 1, env_from = ''alice@example.com'',
                                env_from_len = 17, reject = 1\<rparr>,
             ctx_symvals = Map.empty, ctx_reply = None\<rparr>"
           "\<lparr>is_auth = 1, env_from = ''alice@example.com'', env_from_len = 17, reject = 1\<rparr>"]
        mlfi_eom_verdict [of "\<lparr>ctx_priv = Some \<lparr>is_auth = 1, env_from = ''alice@example.com'',
                                env_from_len = 17, reject = 0\<rparr>,
             ctx_symvals = Map.empty, ctx_reply = None\<rparr>"
           "\<lparr>is_auth = 1, env_from = ''alice@example.com'', env_from_len = 17, reject = 0\<rparr>"]
  by (simp add: smfi_getpriv_def)

text \<open>
  Claim C5 says that a header event and an end-of-message event on a context without a
  session are silent no-ops. In the code only \<open>mlfi_cleanup\<close> tests the session
  pointer; \<open>mlfi_header\<close> and \<open>mlfi_eom\<close> read a field through it first. With an empty
  slot both end in the null dereference, for every context and every header, and so at
  the header \<open>From: a@b\<close> on a fresh context.
\<close>

theorem mlfi_header_eom_null_session:
  "mlfi_header g (ctx\<lparr>ctx_priv := None\<rparr>) headerf headerv = Inl NullDeref
   \<and> mlfi_eom (ctx\<lparr>ctx_priv := None\<rparr>) = Inl NullDeref"
  by (simp add: mlfi_header_def mlfi_eom_def smfi_getpriv_def)

text \<open>The header \<open>From: a@b\<close> and the end of the message on a fresh context.\<close>

theorem mlfi_header_eom_null_session_witness:
  "mlfi_header globals_init \<lparr>ctx_priv = None, ctx_symvals = Map.empty, ctx_reply = None\<rparr>
        ''From'' ''a@b'' = Inl NullDeref
   \<and> mlfi_eom \<lparr>ctx_priv = None, ctx_symvals = Map.empty, ctx_reply = None\<rparr> = Inl NullDeref"
  using mlfi_header_eom_null_session
    [of globals_init "\<lparr>ctx_priv = None, ctx_symvals = Map.empty, ctx_reply = None\<rparr>"
      "''From''" "''a@b''"]
  by simp

text \<open>
  Claim C6 says that for an input with a bracket pair in which a \<open><\<close> precedes a
  \<open>>\<close> the extractor returns the interior of that pair whatever text surrounds it, and
  the comment on \<open>parse_address\<close> says the same: if the field contains a \<open><\<close> with a
  subsequent \<open>>\<close>, the inner part is used. The header value \<open>To <a@b> <\<close> contains the
  pair around \<open>a@b\<close>, but the scan keeps only the last \<open><\<close>, which comes after the last
  \<open>>\<close>: the code returns the pointer to the whole value with its full length 10, and the
  token is the whole value, not \<open>a@b\<close>.
\<close>

theorem parse_address_trailing_bracket:
  "parse_address (''To '' @ ''<'' @ ''a@b'' @ ''>'' @ '' <'') = (''To <a@b> <'', 10)
   \<and> address_token (''To '' @ ''<'' @ ''a@b'' @ ''>'' @ '' <'') = ''To <a@b> <''
   \<and> address_token (''To '' @ ''<'' @ ''a@b'' @ ''>'' @ '' <'') \<noteq> ''a@b''"
  by code_simp

text \<open>
  Claim C7. For every offered masks \<open>f0\<close> to \<open>f3\<close>, \<open>mlfi_negotiate\<close> returns
  \<open>SMFIS_CONTINUE\<close>, requests 0 for \<open>pf0\<close>, \<open>pf2\<close> and \<open>pf3\<close>, and a step mask
  \<open>pf1\<close> that holds the no-connect, no-HELO and no-recipient bits, holds the
  no-reply-after-header bit if and only if the offered \<open>f1\<close> holds it, and holds no other
  bit. It stores \<open>f1\<close> in \<open>mta_caps\<close>, and a later header event on a session answers
  \<open>SMFIS_NOREPLY\<close> exactly when that stored mask holds the bit.
\<close>

theorem mlfi_negotiate_request:
  "\<exists>pf1. mlfi_negotiate g ctx f0 f1 f2 f3 = (g\<lparr>mta_caps := f1\<rparr>, (0, pf1, 0, 0), SMFIS_CONTINUE)
     \<and> pf1 AND SMFIP_NOCONNECT = SMFIP_NOCONNECT \<and> SMFIP_NOCONNECT \<noteq> 0
     \<and> pf1 AND SMFIP_NOHELO = SMFIP_NOHELO \<and> SMFIP_NOHELO \<noteq> 0
     \<and> pf1 AND SMFIP_NORCPT = SMFIP_NORCPT \<and> SMFIP_NORCPT \<noteq> 0
     \<and> (pf1 AND SMFIP_NR_HDR \<noteq> 0 \<longleftrightarrow> f1 AND SMFIP_NR_HDR \<noteq> 0)
     \<and> pf1 AND NOT (SMFIP_NOCONNECT OR SMFIP_NOHELO OR SMFIP_NORCPT OR SMFIP_NR_HDR) = 0
     \<and> map_sum id snd
          (mlfi_header (fst (mlfi_negotiate g ctx f0 f1 f2 f3)) (c\<lparr>ctx_priv := Some priv\<rparr>)
             headerf headerv)
        = Inr (if f1 AND SMFIP_NR_HDR \<noteq> 0 then SMFIS_NOREPLY else SMFIS_CONTINUE)"
proof -
  let ?pf1 = "if f1 AND SMFIP_NR_HDR \<noteq> 0 then (0x8B :: ulong) else 0x0B"
  have neg: "mlfi_negotiate g ctx f0 f1 f2 f3 = (g\<lparr>mta_caps := f1\<rparr>, (0, ?pf1, 0, 0), SMFIS_CONTINUE)"
    by (simp add: mlfi_negotiate_def Let_def SMFIP_NOCONNECT_def SMFIP_NOHELO_def
        SMFIP_NORCPT_def) (simp add: SMFIP_NR_HDR_def)
  have b1: "?pf1 AND SMFIP_NOCONNECT = SMFIP_NOCONNECT \<and> SMFIP_NOCONNECT \<noteq> 0"
    by (simp add: SMFIP_NOCONNECT_def)
  have b2: "?pf1 AND SMFIP_NOHELO = SMFIP_NOHELO \<and> SMFIP_NOHELO \<noteq> 0"
    by (simp add: SMFIP_NOHELO_def)
  have b3: "?pf1 AND SMFIP_NORCPT = SMFIP_NORCPT \<and> SMFIP_NORCPT \<noteq> 0"
    by (simp add: SMFIP_NORCPT_def)
  have b4: "?pf1 AND SMFIP_NR_HDR \<noteq> 0 \<longleftrightarrow> f1 AND SMFIP_NR_HDR \<noteq> 0"
  proof (cases "f1 AND SMFIP_NR_HDR \<noteq> 0")
    case True
    moreover have "(0x8B :: ulong) AND SMFIP_NR_HDR \<noteq> 0" by (simp add: SMFIP_NR_HDR_def)
    ultimately show ?thesis by simp
  next
    case False
    moreover have "(0x0B :: ulong) AND SMFIP_NR_HDR = 0" by (simp add: SMFIP_NR_HDR_def)
    ultimately show ?thesis by simp
  qed
  have b5: "?pf1 AND NOT (SMFIP_NOCONNECT OR SMFIP_NOHELO OR SMFIP_NORCPT OR SMFIP_NR_HDR) = 0"
    by (simp add: SMFIP_NOCONNECT_def SMFIP_NOHELO_def SMFIP_NORCPT_def SMFIP_NR_HDR_def)
  have hdr: "map_sum id snd
          (mlfi_header (fst (mlfi_negotiate g ctx f0 f1 f2 f3)) (c\<lparr>ctx_priv := Some priv\<rparr>)
             headerf headerv)
        = Inr (if f1 AND SMFIP_NR_HDR \<noteq> 0 then SMFIS_NOREPLY else SMFIS_CONTINUE)"
    unfolding neg by (simp add: mlfi_header_def smfi_getpriv_def Let_def)
  show ?thesis
    using neg b1 b2 b3 b4 b5 hdr by blast
qed

text \<open>C7 at an offer that holds every protocol bit, followed by a header event.\<close>

theorem mlfi_negotiate_request_witness:
  "\<exists>pf1. mlfi_negotiate globals_init
            \<lparr>ctx_priv = None, ctx_symvals = Map.empty, ctx_reply = None\<rparr> 0x7F 0x1FFFFF 0 0
          = (\<lparr>mta_caps = 0x1FFFFF\<rparr>, (0, pf1, 0, 0), SMFIS_CONTINUE)
     \<and> pf1 AND SMFIP_NOCONNECT = SMFIP_NOCONNECT
     \<and> pf1 AND SMFIP_NOHELO = SMFIP_NOHELO
     \<and> pf1 AND SMFIP_NORCPT = SMFIP_NORCPT
     \<and> pf1 AND SMFIP_NR_HDR \<noteq> 0
     \<and> map_sum id snd
          (mlfi_header \<lparr>mta_caps = 0x1FFFFF\<rparr>
             \<lparr>ctx_priv = Some \<lparr>is_auth = 0, env_from = ''a@b'', env_from_len = 3, reject = 0\<rparr>,
              ctx_symvals = Map.empty, ctx_reply = None\<rparr> ''Subject'' ''hello'')
        = Inr SMFIS_NOREPLY"
proof -
  have f: "(0x1FFFFF :: ulong) AND SMFIP_NR_HDR \<noteq> 0"
    by (simp add: SMFIP_NR_HDR_def)
  show ?thesis
    using mlfi_negotiate_request
      [where g = globals_init
         and ctx = "\<lparr>ctx_priv = None, ctx_symvals = Map.empty, ctx_reply = None\<rparr>"
         and ?f0.0 = "0x7F" and ?f1.0 = "0x1FFFFF" and ?f2.0 = 0 and ?f3.0 = 0
         and c = "\<lparr>ctx_priv = None, ctx_symvals = Map.empty, ctx_reply = None\<rparr>"
         and priv = "\<lparr>is_auth = 0, env_from = ''a@b'', env_from_len = 3, reject = 0\<rparr>"
         and headerf = "''Subject''" and headerv = "''hello''"] f
    by (auto simp add: globals_init_def)
qed

text \<open>
  Claim C8. The abort handler empties the slot whatever it held, leaves the reply as it
  was and returns \<open>SMFIS_CONTINUE\<close>. \<open>mlfi_cleanup\<close> on a context whose slot is empty
  returns the context unchanged, so a cleanup after an abort, or after another cleanup,
  changes nothing.
\<close>

theorem mlfi_abort_cleanup_idempotent:
  "mlfi_abort ctx = (ctx\<lparr>ctx_priv := None\<rparr>, SMFIS_CONTINUE)
   \<and> smfi_getpriv (fst (mlfi_abort ctx)) = None
   \<and> ctx_reply (fst (mlfi_abort ctx)) = ctx_reply ctx
   \<and> mlfi_cleanup (ctx\<lparr>ctx_priv := None\<rparr>) = ctx\<lparr>ctx_priv := None\<rparr>
   \<and> mlfi_cleanup (fst (mlfi_abort ctx)) = fst (mlfi_abort ctx)
   \<and> mlfi_cleanup (mlfi_cleanup ctx) = mlfi_cleanup ctx"
  by (simp add: mlfi_abort_def mlfi_cleanup_eq smfi_getpriv_def)

text \<open>
  Claim C9. On an envelope value of at most \<open>INT_MAX\<close> bytes, the envelope-sender
  handler allocates the session record and the copy of the address. If either allocation fails it returns \<open>SMFIS_TEMPFAIL\<close> and leaves the
  context as it was. If both succeed it returns \<open>SMFIS_CONTINUE\<close> with a session in the
  slot whose address is the token of the envelope value (the \<open>len\<close> bytes at the pointer
  that \<open>parse_address\<close> returns), whose stored length is that token's length, whose
  \<open>is_auth\<close> is 1 exactly when the connection has an \<open>{auth_type}\<close> macro, and whose
  \<open>reject\<close> is 0.
\<close>

theorem mlfi_envfrom_session:
  assumes "length envfrom \<le> INT_MAX"
  shows "mlfi_envfrom malloc_ok strndup_ok ctx envfrom =
     (if malloc_ok \<and> strndup_ok
      then (smfi_setpriv ctx
              (Some \<lparr>is_auth = (if smfi_getsymval ctx ''{auth_type}'' \<noteq> None then 1 else 0),
                     env_from = address_token envfrom,
                     env_from_len = int (length (address_token envfrom)),
                     reject = 0\<rparr>),
            SMFIS_CONTINUE)
      else (ctx, SMFIS_TEMPFAIL))
   \<and> address_token envfrom
        = take (nat (snd (parse_address envfrom))) (fst (parse_address envfrom))
   \<and> int (length (address_token envfrom)) = snd (parse_address envfrom)"
proof -
  have "int (length (address_token envfrom)) = snd (parse_address envfrom)"
    using address_token_length [OF assms, of "fst (parse_address envfrom)"
        "snd (parse_address envfrom)"] by simp
  then show ?thesis
    by (simp add: mlfi_envfrom_eq [OF assms] smfi_setpriv_def address_token_def split_beta)
qed

text \<open>C9 with both allocations succeeding, and with either one failing.\<close>

theorem mlfi_envfrom_session_witness:
  "mlfi_envfrom True True
     \<lparr>ctx_priv = None, ctx_symvals = [''{auth_type}'' \<mapsto> ''PLAIN''], ctx_reply = None\<rparr>
     ''Alice <Alice@Example.com>''
   = (\<lparr>ctx_priv = Some \<lparr>is_auth = 1, env_from = ''Alice@Example.com'', env_from_len = 17,
                              reject = 0\<rparr>,
       ctx_symvals = [''{auth_type}'' \<mapsto> ''PLAIN''], ctx_reply = None\<rparr>, SMFIS_CONTINUE)
   \<and> mlfi_envfrom False True
     \<lparr>ctx_priv = None, ctx_symvals = Map.empty, ctx_reply = None\<rparr> ''<a@b>''
   = (\<lparr>ctx_priv = None, ctx_symvals = Map.empty, ctx_reply = None\<rparr>, SMFIS_TEMPFAIL)
   \<and> mlfi_envfrom True False
     \<lparr>ctx_priv = None, ctx_symvals = Map.empty, ctx_reply = None\<rparr> ''<a@b>''
   = (\<lparr>ctx_priv = None, ctx_symvals = Map.empty, ctx_reply = None\<rparr>, SMFIS_TEMPFAIL)"
proof -
  have b1: "length ''Alice <Alice@Example.com>'' \<le> INT_MAX"
    and b2: "length ''<a@b>'' \<le> INT_MAX"
    by (simp_all add: INT_MAX_def)
  have t: "address_token ''Alice <Alice@Example.com>'' = ''Alice@Example.com''"
    by code_simp
  have 1: "mlfi_envfrom True True
     \<lparr>ctx_priv = None, ctx_symvals = [''{auth_type}'' \<mapsto> ''PLAIN''], ctx_reply = None\<rparr>
     ''Alice <Alice@Example.com>''
   = (\<lparr>ctx_priv = Some \<lparr>is_auth = 1, env_from = ''Alice@Example.com'', env_from_len = 17,
                              reject = 0\<rparr>,
       ctx_symvals = [''{auth_type}'' \<mapsto> ''PLAIN''], ctx_reply = None\<rparr>, SMFIS_CONTINUE)"
    using mlfi_envfrom_session [OF b1, THEN conjunct1, of True True
        "\<lparr>ctx_priv = None, ctx_symvals = [''{auth_type}'' \<mapsto> ''PLAIN''],
          ctx_reply = None\<rparr>"]
    by (simp add: t smfi_setpriv_def smfi_getsymval_def)
  have 2: "mlfi_envfrom False True
     \<lparr>ctx_priv = None, ctx_symvals = Map.empty, ctx_reply = None\<rparr> ''<a@b>''
   = (\<lparr>ctx_priv = None, ctx_symvals = Map.empty, ctx_reply = None\<rparr>, SMFIS_TEMPFAIL)"
    using mlfi_envfrom_session [OF b2, THEN conjunct1, of False True] by simp
  have 3: "mlfi_envfrom True False
     \<lparr>ctx_priv = None, ctx_symvals = Map.empty, ctx_reply = None\<rparr> ''<a@b>''
   = (\<lparr>ctx_priv = None, ctx_symvals = Map.empty, ctx_reply = None\<rparr>, SMFIS_TEMPFAIL)"
    using mlfi_envfrom_session [OF b2, THEN conjunct1, of True False] by simp
  show ?thesis using 1 2 3 by (intro conjI)
qed

text \<open>
  Claim C10. The envelope-sender handler returns \<open>SMFIS_CONTINUE\<close> or
  \<open>SMFIS_TEMPFAIL\<close>; the header handler, whenever it returns (that is, whenever a session
  exists), returns \<open>SMFIS_NOREPLY\<close> or \<open>SMFIS_CONTINUE\<close> as \<open>mta_caps\<close> alone decides;
  the abort and negotiate handlers return \<open>SMFIS_CONTINUE\<close>. None of them returns
  \<open>SMFIS_REJECT\<close>, which the end-of-message handler does return on a rejected session.
\<close>

theorem only_eom_rejects:
  "snd (mlfi_envfrom malloc_ok strndup_ok ctx envfrom)
     = (if malloc_ok \<and> strndup_ok then SMFIS_CONTINUE else SMFIS_TEMPFAIL)
   \<and> (case mlfi_header g ctx headerf headerv of
        Inl e \<Rightarrow> smfi_getpriv ctx = None
      | Inr (ctx', v) \<Rightarrow>
          smfi_getpriv ctx \<noteq> None
          \<and> v = (if mta_caps g AND SMFIP_NR_HDR \<noteq> 0 then SMFIS_NOREPLY else SMFIS_CONTINUE))
   \<and> snd (mlfi_abort ctx) = SMFIS_CONTINUE
   \<and> snd (snd (mlfi_negotiate g ctx f0 f1 f2 f3)) = SMFIS_CONTINUE
   \<and> snd (mlfi_envfrom malloc_ok strndup_ok ctx envfrom) \<noteq> SMFIS_REJECT
   \<and> mlfi_header g ctx headerf headerv \<noteq> Inr (ctx', SMFIS_REJECT)
   \<and> mlfi_eom (ctx\<lparr>ctx_priv := Some (priv\<lparr>reject := 1\<rparr>)\<rparr>)
       = Inr (ctx\<lparr>ctx_priv := None,
                  ctx_reply := Some (''550'', ''5.7.1'',
                    ''Rejected due to unmatching envelope and header sender.'')\<rparr>,
              SMFIS_REJECT)"
proof -
  have env: "snd (mlfi_envfrom malloc_ok strndup_ok ctx envfrom)
     = (if malloc_ok \<and> strndup_ok then SMFIS_CONTINUE else SMFIS_TEMPFAIL)"
    by (rule mlfi_envfrom_verdict)
  have hdr: "(case mlfi_header g ctx headerf headerv of
        Inl e \<Rightarrow> smfi_getpriv ctx = None
      | Inr (ctx', v) \<Rightarrow>
          smfi_getpriv ctx \<noteq> None
          \<and> v = (if mta_caps g AND SMFIP_NR_HDR \<noteq> 0 then SMFIS_NOREPLY else SMFIS_CONTINUE))"
    by (cases "ctx_priv ctx") (simp_all add: mlfi_header_def smfi_getpriv_def Let_def)
  have hdr2: "mlfi_header g ctx headerf headerv \<noteq> Inr (ctx', SMFIS_REJECT)"
    by (cases "ctx_priv ctx") (simp_all add: mlfi_header_def smfi_getpriv_def Let_def)
  have eom: "mlfi_eom (ctx\<lparr>ctx_priv := Some (priv\<lparr>reject := 1\<rparr>)\<rparr>)
       = Inr (ctx\<lparr>ctx_priv := None,
                  ctx_reply := Some (''550'', ''5.7.1'',
                    ''Rejected due to unmatching envelope and header sender.'')\<rparr>,
              SMFIS_REJECT)"
    by (simp add: mlfi_eom_session [of _ "priv\<lparr>reject := 1\<rparr>"])
  show ?thesis
    using env hdr hdr2 eom
    by (simp add: mlfi_abort_def mlfi_negotiate_def Let_def)
qed

text \<open>C10 at one concrete call of each handler.\<close>

theorem only_eom_rejects_witness:
  "snd (mlfi_envfrom True True
          \<lparr>ctx_priv = None, ctx_symvals = [''{auth_type}'' \<mapsto> ''PLAIN''], ctx_reply = None\<rparr>
          ''<a@b>'') = SMFIS_CONTINUE
   \<and> snd (mlfi_envfrom True True
          \<lparr>ctx_priv = None, ctx_symvals = [''{auth_type}'' \<mapsto> ''PLAIN''], ctx_reply = None\<rparr>
          ''<a@b>'') \<noteq> SMFIS_REJECT
   \<and> snd (mlfi_abort
          \<lparr>ctx_priv = None, ctx_symvals = [''{auth_type}'' \<mapsto> ''PLAIN''], ctx_reply = None\<rparr>)
       = SMFIS_CONTINUE
   \<and> snd (snd (mlfi_negotiate globals_init
          \<lparr>ctx_priv = None, ctx_symvals = [''{auth_type}'' \<mapsto> ''PLAIN''], ctx_reply = None\<rparr>
          0 0x80 0 0)) = SMFIS_CONTINUE
   \<and> mlfi_header globals_init
          \<lparr>ctx_priv = None, ctx_symvals = [''{auth_type}'' \<mapsto> ''PLAIN''], ctx_reply = None\<rparr>
          ''From'' ''c@d''
       \<noteq> Inr (\<lparr>ctx_priv = None, ctx_symvals = [''{auth_type}'' \<mapsto> ''PLAIN''],
               ctx_reply = None\<rparr>, SMFIS_REJECT)
   \<and> (\<exists>ctx'. mlfi_eom
          \<lparr>ctx_priv = Some \<lparr>is_auth = 1, env_from = ''a@b'', env_from_len = 3, reject = 1\<rparr>,
           ctx_symvals = [''{auth_type}'' \<mapsto> ''PLAIN''], ctx_reply = None\<rparr>
        = Inr (ctx', SMFIS_REJECT))"
  using only_eom_rejects
    [where malloc_ok = True and strndup_ok = True
       and ctx = "\<lparr>ctx_priv = None, ctx_symvals = [''{auth_type}'' \<mapsto> ''PLAIN''],
                  ctx_reply = None\<rparr>"
       and envfrom = "''<a@b>''" and g = globals_init
       and headerf = "''From''" and headerv = "''c@d''"
       and ?f0.0 = 0 and ?f1.0 = "0x80" and ?f2.0 = 0 and ?f3.0 = 0
       and ctx' = "\<lparr>ctx_priv = None, ctx_symvals = [''{auth_type}'' \<mapsto> ''PLAIN''],
                   ctx_reply = None\<rparr>"
       and priv = "\<lparr>is_auth = 1, env_from = ''a@b'', env_from_len = 3, reject = 0\<rparr>"]
  by simp

end
